theory Spec2Isabelle
  imports Main "HOL-Library.Word" "HOL-Library.Signed_Division"
begin

section \<open>Encrypted data logging with a secure element: model of main.c\<close>

text \<open>
  The program keeps four pieces of mutable state that matter here: the status word shared
  with the completion callback (\<open>s_optiga_status\<close>), the record counter
  (\<open>s_log_seq\<close>), the log file on the mounted volume and the console it logs to.
  The world adds two fields of bookkeeping: the completion signal still on its way
  (\<open>pending\<close>) and the requests submitted to the secure element so far (\<open>se_trace\<close>).
  The secure-element library, the C library and the timer are outside the program; their
  behaviour is a parameter of every function (\<open>env\<close>), so that each theorem holds for
  every behaviour of the outside world unless it says otherwise.
\<close>

subsection \<open>Constants\<close>

type_synonym byte = "8 word"
type_synonym optiga_lib_status_t = "16 word"

text \<open>
  Modelled from the spec: the status codes of the secure-element library, whose header
  is not among the sources. The spec's Success and Busy are the library's
  \<open>OPTIGA_LIB_SUCCESS\<close> (0x0000) and \<open>OPTIGA_LIB_BUSY\<close> (0x0001); every other code
  is an error.
\<close>

definition OPTIGA_LIB_SUCCESS :: optiga_lib_status_t where
  "OPTIGA_LIB_SUCCESS = 0x0000"

definition OPTIGA_LIB_BUSY :: optiga_lib_status_t where
  "OPTIGA_LIB_BUSY = 0x0001"

definition AES_IV_BYTES :: nat where
  "AES_IV_BYTES = 16"

definition PLAINTEXT_MAX :: nat where
  "PLAINTEXT_MAX = 64"

subsection \<open>The outside world\<close>

text \<open>
  A request submitted to the secure element. The fixed arguments of the source
  (TRNG, AES-128, CBC, the secret-based key id, encryption usage, no export) are part of
  the constructor's meaning; the arguments that vary are its fields.
\<close>

datatype se_op =
    Random nat
  | ReadMetadata "16 word" nat
  | WriteMetadata "16 word" "byte list"
  | GenerateKey
  | SymmetricEncrypt "byte list" "byte list"

text \<open>
  What the secure element does with one request: the value the library call returns at
  once, the completion signal (after how many polls of the waiter the callback runs and
  the status it carries; \<open>None\<close> when no signal ever arrives), and the bytes it
  delivers to the output buffer.
\<close>

record se_reply =
  api_ret :: optiga_lib_status_t
  completion :: "(nat \<times> optiga_lib_status_t) option"
  out_data :: "byte list"

text \<open>
  The environment of one call: the secure element (its reply may depend on the number of
  requests made before and on the request), the contents of uninitialised local arrays
  (by variable name and index), whether \<open>snprintf\<close> reports an error, whether
  \<open>fopen\<close> fails, and how many bytes of a write reach the file.
\<close>

record env =
  secure_element :: "nat \<Rightarrow> se_op \<Rightarrow> se_reply"
  garbage :: "string \<Rightarrow> nat \<Rightarrow> byte"
  snprintf_fails :: bool
  fopen_fails :: bool
  storage_accepts :: nat

datatype esp_log =
    ESP_LOGE string
  | ESP_LOGW string
  | ESP_LOGI string
  | ESP_LOG_BUFFER_HEX "byte list"

record world =
  s_optiga_status :: optiga_lib_status_t
  s_log_seq :: "32 word"
  pending :: "(nat \<times> optiga_lib_status_t) option"
  se_trace :: "se_op list"
  log_file :: "byte list option"
  console :: "esp_log list"

datatype fault = BufferOverflow

definition uninit :: "env \<Rightarrow> string \<Rightarrow> nat \<Rightarrow> byte list" where
  "uninit e name n = map (garbage e name) [0..<n]"

text \<open>The log macros append one line to the console; arguments are not rendered.\<close>

definition esp_log :: "esp_log \<Rightarrow> world \<Rightarrow> world" where
  "esp_log l w = w\<lparr>console := console w @ [l]\<rparr>"

subsection \<open>The adapter: callback and waiter\<close>

definition optiga_callback :: "optiga_lib_status_t \<Rightarrow> world \<Rightarrow> world" where
  "optiga_callback return_status w = w\<lparr>s_optiga_status := return_status\<rparr>"

text \<open>
  The delay is where the out-of-band completion signal can arrive: a signal due after
  this poll runs the callback, a later one moves one poll closer.
\<close>

definition pal_os_timer_delay_in_milliseconds :: "16 word \<Rightarrow> world \<Rightarrow> world" where
  "pal_os_timer_delay_in_milliseconds milliseconds w =
     (case pending w of
        None \<Rightarrow> w
      | Some (n, st) \<Rightarrow>
          if n \<le> 1 then optiga_callback st (w\<lparr>pending := None\<rparr>)
          else w\<lparr>pending := Some (n - 1, st)\<rparr>)"

text \<open>The busy-poll loop has no timeout: not returning is the value \<open>None\<close>.\<close>

partial_function (option) optiga_wait :: "world \<Rightarrow> (bool \<times> world) option" where
  "optiga_wait w =
     (if s_optiga_status w = OPTIGA_LIB_BUSY
      then optiga_wait (pal_os_timer_delay_in_milliseconds 5 w)
      else Some (s_optiga_status w = OPTIGA_LIB_SUCCESS, w))"

declare optiga_wait.simps [code]

text \<open>
  A library call: the request is recorded, the library answers at once, and an accepted
  request schedules its completion signal (a signal due at once runs the callback before
  the caller polls).
\<close>

definition se_submit :: "env \<Rightarrow> se_op \<Rightarrow> world \<Rightarrow> optiga_lib_status_t \<times> byte list \<times> world" where
  "se_submit e op w =
     (let r = secure_element e (length (se_trace w)) op;
          w1 = w\<lparr>se_trace := se_trace w @ [op]\<rparr>
      in if api_ret r \<noteq> OPTIGA_LIB_SUCCESS then (api_ret r, [], w1)
         else (OPTIGA_LIB_SUCCESS, out_data r,
               case completion r of
                 Some (0, st) \<Rightarrow> optiga_callback st (w1\<lparr>pending := None\<rparr>)
               | c \<Rightarrow> w1\<lparr>pending := c\<rparr>))"

text \<open>The library writes at most \<open>cap\<close> bytes at the start of the output buffer.\<close>

definition write_out :: "byte list \<Rightarrow> nat \<Rightarrow> byte list \<Rightarrow> byte list" where
  "write_out out cap d = take cap d @ drop (length (take cap d)) out"

definition optiga_crypt_random ::
  "env \<Rightarrow> byte list \<Rightarrow> nat \<Rightarrow> world \<Rightarrow> optiga_lib_status_t \<times> byte list \<times> world" where
  "optiga_crypt_random e out len w =
     (case se_submit e (Random len) w of
        (ret, d, w') \<Rightarrow> (ret, if ret = OPTIGA_LIB_SUCCESS then write_out out len d else out, w'))"

definition optiga_rng_fill :: "env \<Rightarrow> byte list \<Rightarrow> nat \<Rightarrow> world \<Rightarrow> (bool \<times> byte list \<times> world) option" where
  "optiga_rng_fill e out len w =
     (case optiga_crypt_random e out len (w\<lparr>s_optiga_status := OPTIGA_LIB_BUSY\<rparr>) of
        (ret, out', w1) \<Rightarrow>
          if ret \<noteq> OPTIGA_LIB_SUCCESS then Some (False, out', w1)
          else (case optiga_wait w1 of
                  None \<Rightarrow> None
                | Some (ok, w2) \<Rightarrow> Some (ok, out', w2)))"

definition optiga_util_read_metadata ::
  "env \<Rightarrow> 16 word \<Rightarrow> byte list \<Rightarrow> nat \<Rightarrow> world \<Rightarrow>
   optiga_lib_status_t \<times> byte list \<times> nat \<times> world" where
  "optiga_util_read_metadata e oid buffer len w =
     (case se_submit e (ReadMetadata oid len) w of
        (ret, d, w') \<Rightarrow>
          if ret = OPTIGA_LIB_SUCCESS
          then (ret, write_out buffer len d, length (take len d), w')
          else (ret, buffer, len, w'))"

definition optiga_util_write_metadata ::
  "env \<Rightarrow> 16 word \<Rightarrow> byte list \<Rightarrow> world \<Rightarrow> optiga_lib_status_t \<times> world" where
  "optiga_util_write_metadata e oid buffer w =
     (case se_submit e (WriteMetadata oid buffer) w of (ret, d, w') \<Rightarrow> (ret, w'))"

definition optiga_crypt_symmetric_generate_key ::
  "env \<Rightarrow> world \<Rightarrow> optiga_lib_status_t \<times> world" where
  "optiga_crypt_symmetric_generate_key e w =
     (case se_submit e GenerateKey w of (ret, d, w') \<Rightarrow> (ret, w'))"

definition optiga_crypt_symmetric_encrypt ::
  "env \<Rightarrow> byte list \<Rightarrow> byte list \<Rightarrow> byte list \<Rightarrow> nat \<Rightarrow> world \<Rightarrow>
   optiga_lib_status_t \<times> byte list \<times> nat \<times> world" where
  "optiga_crypt_symmetric_encrypt e plain_data iv encrypted_data encrypted_data_length w =
     (case se_submit e (SymmetricEncrypt plain_data iv) w of
        (ret, d, w') \<Rightarrow>
          if ret = OPTIGA_LIB_SUCCESS
          then (ret, write_out encrypted_data encrypted_data_length d,
                length (take encrypted_data_length d), w')
          else (ret, encrypted_data, encrypted_data_length, w'))"

subsection \<open>Key provisioning\<close>

definition optiga_key_ready :: "env \<Rightarrow> world \<Rightarrow> (bool \<times> world) option" where
  "optiga_key_ready e w =
     (case optiga_util_read_metadata e 0xE200 (uninit e ''metadata'' 64) 64
             (w\<lparr>s_optiga_status := OPTIGA_LIB_BUSY\<rparr>) of
        (ret, metadata, metadata_len, w1) \<Rightarrow>
          if ret \<noteq> OPTIGA_LIB_SUCCESS then Some (False, w1)
          else (case optiga_wait w1 of
                  None \<Rightarrow> None
                | Some (ok, w2) \<Rightarrow>
                    if \<not> ok then Some (False, w2)
                    else if metadata_len = 0 then Some (False, w2)
                    else Some (True, esp_log (ESP_LOGI ''OPTIGA key metadata length: %u'') w2)))"

definition e200_metadata :: "byte list" where
  "e200_metadata = [0x20, 0x06, 0xD0, 0x01, 0x00, 0xD3, 0x01, 0x00]"

definition optiga_write_e200_metadata :: "env \<Rightarrow> world \<Rightarrow> (bool \<times> world) option" where
  "optiga_write_e200_metadata e w =
     (case optiga_util_write_metadata e 0xE200 e200_metadata
             ((esp_log (ESP_LOGI ''Writing metadata for OPTIGA key slot 0xE200'') w)
                \<lparr>s_optiga_status := OPTIGA_LIB_BUSY\<rparr>) of
        (ret, w1) \<Rightarrow>
          if ret \<noteq> OPTIGA_LIB_SUCCESS
          then Some (False, esp_log (ESP_LOGE ''optiga_util_write_metadata start failed: 0x%04X'') w1)
          else (case optiga_wait w1 of
                  None \<Rightarrow> None
                | Some (ok, w2) \<Rightarrow>
                    if \<not> ok then Some (False, esp_log (ESP_LOGE ''optiga_util_write_metadata failed'') w2)
                    else Some (True, w2)))"

text \<open>The tail of \<open>optiga_generate_key_if_enabled\<close>, reached once the metadata is written.\<close>

definition generate_key_tail :: "env \<Rightarrow> world \<Rightarrow> (bool \<times> world) option" where
  "generate_key_tail e w =
     (case optiga_crypt_symmetric_generate_key e
             ((esp_log (ESP_LOGI ''Generating AES-128 key in OPTIGA (OID 0xE200)...'') w)
                \<lparr>s_optiga_status := OPTIGA_LIB_BUSY\<rparr>) of
        (ret, w1) \<Rightarrow>
          if ret \<noteq> OPTIGA_LIB_SUCCESS
          then Some (False, esp_log (ESP_LOGE ''optiga_crypt_symmetric_generate_key start failed: 0x%04X'') w1)
          else (case optiga_wait w1 of
                  None \<Rightarrow> None
                | Some (ok, w2) \<Rightarrow>
                    if \<not> ok
                    then Some (False, esp_log (ESP_LOGE ''optiga_crypt_symmetric_generate_key failed'') w2)
                    else Some (True, esp_log (ESP_LOGI ''AES key generated in OPTIGA'') w2)))"

text \<open>\<open>GENERATE_KEY_ON_BOOT\<close> is a build-time switch (0 unless overridden): a parameter here.\<close>

definition optiga_generate_key_if_enabled :: "bool \<Rightarrow> env \<Rightarrow> world \<Rightarrow> (bool \<times> world) option" where
  "optiga_generate_key_if_enabled GENERATE_KEY_ON_BOOT e w =
     (if GENERATE_KEY_ON_BOOT
      then (case optiga_write_e200_metadata e
                   (esp_log (ESP_LOGW ''GENERATE_KEY_ON_BOOT=1 (will overwrite key)'') w) of
              None \<Rightarrow> None
            | Some (ok, w1) \<Rightarrow> if \<not> ok then Some (False, w1) else generate_key_tail e w1)
      else (case optiga_key_ready e w of
              None \<Rightarrow> None
            | Some (ready, w1) \<Rightarrow>
                if ready then Some (True, esp_log (ESP_LOGI ''Using existing OPTIGA key (OID 0xE200)'') w1)
                else (case optiga_write_e200_metadata e
                             (esp_log (ESP_LOGI ''OPTIGA key not ready. Initializing...'') w1) of
                        None \<Rightarrow> None
                      | Some (ok, w2) \<Rightarrow> if \<not> ok then Some (False, w2) else generate_key_tail e w2)))"

subsection \<open>The log store: hex dump\<close>

text \<open>
  \<open>fopen\<close> for reading fails when the environment says so or when there is no file;
  \<open>fread\<close> on the open file returns the next 32 bytes, or what is left.
\<close>

function fread_loop :: "byte list \<Rightarrow> world \<Rightarrow> world" where
  "fread_loop rest w =
     (if length (take 32 rest) > 0
      then fread_loop (drop 32 rest) (esp_log (ESP_LOG_BUFFER_HEX (take 32 rest)) w)
      else w)"
  by pat_completeness auto
termination
  by (relation "measure (\<lambda>(rest, w). length rest)") auto

declare fread_loop.simps [simp del]

definition print_log_file_hex :: "env \<Rightarrow> world \<Rightarrow> world" where
  "print_log_file_hex e w =
     (case (if fopen_fails e then None else log_file w) of
        None \<Rightarrow> esp_log (ESP_LOGI ''no existing log file found.'') w
      | Some content \<Rightarrow> fread_loop content (esp_log (ESP_LOGI ''raw file content (hex):'') w))"

subsection \<open>The record codec\<close>

text \<open>
  \<open>memcpy (dst + off, src, n)\<close>: a copy that leaves the destination or the source is
  undefined behaviour, here the fault \<open>BufferOverflow\<close>.
\<close>

definition memcpy :: "byte list \<Rightarrow> nat \<Rightarrow> byte list \<Rightarrow> nat \<Rightarrow> fault + byte list" where
  "memcpy dst off src n =
     (if off + n > length dst \<or> n > length src then Inl BufferOverflow
      else Inr (take off dst @ take n src @ drop (off + n) dst))"

definition encrypt_record ::
  "env \<Rightarrow> byte list \<Rightarrow> nat \<Rightarrow> byte list \<Rightarrow> nat \<Rightarrow> world \<Rightarrow>
   (fault + bool \<times> byte list \<times> world) option" where
  "encrypt_record e plaintext pt_len record record_len w =
     (if record_len < AES_IV_BYTES + PLAINTEXT_MAX then Some (Inr (False, record, w))
      else
        (case optiga_rng_fill e (uninit e ''iv'' AES_IV_BYTES) AES_IV_BYTES w of
           None \<Rightarrow> None
         | Some (rng_ok, iv, w1) \<Rightarrow>
             if \<not> rng_ok then Some (Inr (False, record, esp_log (ESP_LOGE ''IV generation failed'') w1))
             else
               (case memcpy (replicate PLAINTEXT_MAX 0) 0 plaintext pt_len of
                  Inl f \<Rightarrow> Some (Inl f)
                | Inr pt_buf \<Rightarrow>
                    (case optiga_crypt_symmetric_encrypt e pt_buf iv
                            (uninit e ''ciphertext'' PLAINTEXT_MAX) PLAINTEXT_MAX
                            (w1\<lparr>s_optiga_status := OPTIGA_LIB_BUSY\<rparr>) of
                       (ret, ciphertext, cipher_len, w2) \<Rightarrow>
                         if ret \<noteq> OPTIGA_LIB_SUCCESS
                         then Some (Inr (False, record,
                                esp_log (ESP_LOGE ''optiga_crypt_symmetric_encrypt start failed: 0x%04X'') w2))
                         else
                           (case optiga_wait w2 of
                              None \<Rightarrow> None
                            | Some (enc_ok, w3) \<Rightarrow>
                                if \<not> enc_ok
                                then Some (Inr (False, record,
                                       esp_log (ESP_LOGE ''optiga_crypt_symmetric_encrypt failed'') w3))
                                else if cipher_len \<noteq> PLAINTEXT_MAX
                                then Some (Inr (False, record,
                                       esp_log (ESP_LOGE ''unexpected ciphertext length: %lu'') w3))
                                else
                                  (case memcpy record 0 iv AES_IV_BYTES of
                                     Inl f \<Rightarrow> Some (Inl f)
                                   | Inr record1 \<Rightarrow>
                                       (case memcpy record1 AES_IV_BYTES ciphertext PLAINTEXT_MAX of
                                          Inl f \<Rightarrow> Some (Inl f)
                                        | Inr record2 \<Rightarrow> Some (Inr (True, record2, w3)))))))))"

subsection \<open>The message and the append\<close>

fun show_nat :: "nat \<Rightarrow> string" where
  "show_nat n = (if n < 10 then [char_of (48 + n)] else show_nat (n div 10) @ [char_of (48 + n mod 10)])"

declare show_nat.simps [simp del]

definition show_int :: "int \<Rightarrow> string" where
  "show_int i = (if i < 0 then CHR ''-'' # show_nat (nat (- i)) else show_nat (nat i))"

text \<open>The text \<open>snprintf\<close> formats: \<open>{"seq":%lu,"uptime_ms":%lld}\<close>.\<close>

definition format_msg :: "32 word \<Rightarrow> int \<Rightarrow> string" where
  "format_msg seq uptime_ms =
     [CHR ''{'', CHR 0x22] @ ''seq'' @ [CHR 0x22, CHR '':''] @ show_nat (unat seq) @
     [CHR '','', CHR 0x22] @ ''uptime_ms'' @ [CHR 0x22, CHR '':''] @ show_int uptime_ms @ [CHR ''}'']"

text \<open>
  \<open>snprintf (msg, n, ...)\<close> returns the length of the whole formatted text, also when it
  does not fit, or a negative value on error; the buffer receives at most \<open>n - 1\<close>
  characters and the terminating zero.
\<close>

definition snprintf :: "env \<Rightarrow> byte list \<Rightarrow> nat \<Rightarrow> string \<Rightarrow> int \<times> byte list" where
  "snprintf e buf n s =
     (if snprintf_fails e then (- 1, buf)
      else (int (length s),
            (let out = map of_char (take (n - 1) s) @ [0]
             in take n out @ drop (length (take n out)) buf)))"

text \<open>
  \<open>fopen (path, "ab")\<close> creates a missing file; of the \<open>n\<close> bytes handed to
  \<open>fwrite\<close> the first \<open>storage_accepts\<close> reach the file (all of them when that is at
  least \<open>n\<close>). The source ignores what \<open>fwrite\<close> and \<open>fclose\<close> return.
\<close>

definition fwrite :: "env \<Rightarrow> byte list \<Rightarrow> nat \<Rightarrow> world \<Rightarrow> world" where
  "fwrite e buf n w =
     w\<lparr>log_file := Some ((case log_file w of None \<Rightarrow> [] | Some c \<Rightarrow> c) @
                          take (min n (storage_accepts e)) buf)\<rparr>"

text \<open>\<open>now\<close> is what \<open>esp_timer_get_time\<close> returns, microseconds as a signed 64-bit value.\<close>

definition append_encrypted_record :: "env \<Rightarrow> 64 word \<Rightarrow> world \<Rightarrow> (fault + world) option" where
  "append_encrypted_record e now w =
     (let uptime_ms = sint now sdiv 1000;
          w1 = w\<lparr>s_log_seq := s_log_seq w + 1\<rparr>
      in case snprintf e (uninit e ''msg'' PLAINTEXT_MAX) PLAINTEXT_MAX
                (format_msg (s_log_seq w1) uptime_ms) of
           (written, msg) \<Rightarrow>
             if written < 0 then Some (Inr (esp_log (ESP_LOGE ''snprintf failed'') w1))
             else
               (case encrypt_record e msg (nat written)
                       (uninit e ''record'' (AES_IV_BYTES + PLAINTEXT_MAX))
                       (AES_IV_BYTES + PLAINTEXT_MAX) w1 of
                  None \<Rightarrow> None
                | Some (Inl f) \<Rightarrow> Some (Inl f)
                | Some (Inr (ok, record, w2)) \<Rightarrow>
                    if \<not> ok then Some (Inr (esp_log (ESP_LOGE ''encrypt_record failed'') w2))
                    else if fopen_fails e
                    then Some (Inr (esp_log (ESP_LOGE ''failed to open log file for append'') w2))
                    else Some (Inr (esp_log (ESP_LOGI ''encrypted: %s'')
                                     (fwrite e record (AES_IV_BYTES + PLAINTEXT_MAX) w2)))))"

subsection \<open>Vocabulary of the statements\<close>

text \<open>
  What becomes of one request: the library rejects it at once, or accepts it and no
  completion signal ever takes the status away from Busy, or the signal arrives with a
  final status.
\<close>

datatype se_outcome = Rejected | NoSignal | Completed optiga_lib_status_t

definition outcome :: "se_reply \<Rightarrow> se_outcome" where
  "outcome r =
     (if api_ret r \<noteq> OPTIGA_LIB_SUCCESS then Rejected
      else (case completion r of
              None \<Rightarrow> NoSignal
            | Some (n, st) \<Rightarrow> if st = OPTIGA_LIB_BUSY then NoSignal else Completed st))"

text \<open>The world after a rejected request, and after a request completed with status \<open>st\<close>.\<close>

definition rejected_world :: "se_op \<Rightarrow> world \<Rightarrow> world" where
  "rejected_world op w = w\<lparr>s_optiga_status := OPTIGA_LIB_BUSY, se_trace := se_trace w @ [op]\<rparr>"

definition completed_world :: "se_op \<Rightarrow> optiga_lib_status_t \<Rightarrow> world \<Rightarrow> world" where
  "completed_world op st w = w\<lparr>s_optiga_status := st, pending := None, se_trace := se_trace w @ [op]\<rparr>"

text \<open>A waiter in this state is never released: Busy, and no signal that would change it.\<close>

definition never_signalled :: "world \<Rightarrow> bool" where
  "never_signalled w =
     (s_optiga_status w = OPTIGA_LIB_BUSY \<and>
      (case pending w of None \<Rightarrow> True | Some (n, st) \<Rightarrow> st = OPTIGA_LIB_BUSY))"

text \<open>
  What holds between the world a waiter starts in and what it returns: the status it leaves
  is final, it decides the result, it is the status the waiter found or the one the
  pending signal carries, and nothing else of the program's state has changed.
\<close>

definition wait_post :: "world \<Rightarrow> bool \<times> world \<Rightarrow> bool" where
  "wait_post w r =
     (s_optiga_status (snd r) \<noteq> OPTIGA_LIB_BUSY \<and>
      fst r = (s_optiga_status (snd r) = OPTIGA_LIB_SUCCESS) \<and>
      (case pending w of
         None \<Rightarrow> s_optiga_status (snd r) = s_optiga_status w
       | Some (n, st) \<Rightarrow> s_optiga_status (snd r) = s_optiga_status w \<or> s_optiga_status (snd r) = st) \<and>
      se_trace (snd r) = se_trace w \<and> log_file (snd r) = log_file w \<and>
      s_log_seq (snd r) = s_log_seq w \<and> console (snd r) = console w)"

text \<open>
  The replies \<open>encrypt_record\<close> meets, in the order it asks: the random fill for the IV,
  then the encryption of the zero-padded plaintext under that IV.
\<close>

definition rng_reply :: "env \<Rightarrow> world \<Rightarrow> se_reply" where
  "rng_reply e w = secure_element e (length (se_trace w)) (Random AES_IV_BYTES)"

definition fresh_iv :: "env \<Rightarrow> world \<Rightarrow> byte list" where
  "fresh_iv e w = write_out (uninit e ''iv'' AES_IV_BYTES) AES_IV_BYTES (out_data (rng_reply e w))"

definition padded :: "byte list \<Rightarrow> nat \<Rightarrow> byte list" where
  "padded plaintext pt_len = take pt_len plaintext @ replicate (PLAINTEXT_MAX - pt_len) 0"

definition encrypt_op :: "env \<Rightarrow> byte list \<Rightarrow> nat \<Rightarrow> world \<Rightarrow> se_op" where
  "encrypt_op e plaintext pt_len w = SymmetricEncrypt (padded plaintext pt_len) (fresh_iv e w)"

definition enc_reply :: "env \<Rightarrow> byte list \<Rightarrow> nat \<Rightarrow> world \<Rightarrow> se_reply" where
  "enc_reply e plaintext pt_len w =
     secure_element e (Suc (length (se_trace w))) (encrypt_op e plaintext pt_len w)"

definition se_ciphertext :: "env \<Rightarrow> byte list \<Rightarrow> nat \<Rightarrow> world \<Rightarrow> byte list" where
  "se_ciphertext e plaintext pt_len w = take PLAINTEXT_MAX (out_data (enc_reply e plaintext pt_len w))"

text \<open>
  Provisioning under the non-destructive policy (\<open>GENERATE_KEY_ON_BOOT = 0\<close>): its result
  together with the requests it submitted to the secure element, in order.
\<close>

definition provisioning :: "env \<Rightarrow> world \<Rightarrow> (bool \<times> se_op list) option" where
  "provisioning e w =
     (case optiga_generate_key_if_enabled False e w of
        None \<Rightarrow> None
      | Some (ok, w') \<Rightarrow> Some (ok, drop (length (se_trace w)) (se_trace w')))"

text \<open>The chunks the read loop of \<open>print_log_file_hex\<close> obtains from a file.\<close>

function fread_chunks :: "byte list \<Rightarrow> byte list list" where
  "fread_chunks rest =
     (if length (take 32 rest) > 0 then take 32 rest # fread_chunks (drop 32 rest) else [])"
  by pat_completeness auto
termination
  by (relation "measure length") auto

declare fread_chunks.simps [simp del]

text \<open>The message \<open>append_encrypted_record\<close> builds, and the call of the codec it makes.\<close>

definition log_message :: "env \<Rightarrow> 64 word \<Rightarrow> world \<Rightarrow> int \<times> byte list" where
  "log_message e now w =
     snprintf e (uninit e ''msg'' PLAINTEXT_MAX) PLAINTEXT_MAX
       (format_msg (s_log_seq w + 1) (sint now sdiv 1000))"

definition encoding :: "env \<Rightarrow> 64 word \<Rightarrow> world \<Rightarrow> (fault + bool \<times> byte list \<times> world) option" where
  "encoding e now w =
     encrypt_record e (snd (log_message e now w)) (nat (fst (log_message e now w)))
       (uninit e ''record'' (AES_IV_BYTES + PLAINTEXT_MAX)) (AES_IV_BYTES + PLAINTEXT_MAX)
       (w\<lparr>s_log_seq := s_log_seq w + 1\<rparr>)"

text \<open>
  The five ways the encoding of one record fails: message construction, IV generation,
  encrypt submission, encrypt completion, ciphertext-length check.
\<close>

definition encoding_failure :: "env \<Rightarrow> 64 word \<Rightarrow> world \<Rightarrow> bool" where
  "encoding_failure e now w =
     (let written = fst (log_message e now w);
          msg = snd (log_message e now w);
          rng = outcome (rng_reply e w);
          enc = enc_reply e msg (nat written) w
      in written < 0 \<or>
         (0 \<le> written \<and> rng \<noteq> NoSignal \<and> rng \<noteq> Completed OPTIGA_LIB_SUCCESS) \<or>
         (0 \<le> written \<and> rng = Completed OPTIGA_LIB_SUCCESS \<and> outcome enc = Rejected) \<or>
         (0 \<le> written \<and> rng = Completed OPTIGA_LIB_SUCCESS \<and> outcome enc \<noteq> Rejected \<and>
            outcome enc \<noteq> NoSignal \<and> outcome enc \<noteq> Completed OPTIGA_LIB_SUCCESS) \<or>
         (0 \<le> written \<and> rng = Completed OPTIGA_LIB_SUCCESS \<and>
            outcome enc = Completed OPTIGA_LIB_SUCCESS \<and> length (out_data enc) < PLAINTEXT_MAX))"

text \<open>
  The spec's four statuses of an operation, and the one the program's status word shows.
  The program has no value that means Idle.
\<close>

datatype crypto_status = Idle | Busy | Success | Error

definition operation_status :: "optiga_lib_status_t \<Rightarrow> crypto_status" where
  "operation_status st =
     (if st = OPTIGA_LIB_BUSY then Busy else if st = OPTIGA_LIB_SUCCESS then Success else Error)"

subsection \<open>Test doubles\<close>

text \<open>
  The stub of the spec's end-to-end example: the random fill returns the bytes 0 to 15, the
  cipher returns the padded plaintext with every byte XOR 0xFF, the key slot has no
  metadata, and every request completes successfully after a poll or two.
\<close>

definition reply_ok :: "nat \<Rightarrow> byte list \<Rightarrow> se_reply" where
  "reply_ok polls d = \<lparr>api_ret = OPTIGA_LIB_SUCCESS, completion = Some (polls, OPTIGA_LIB_SUCCESS), out_data = d\<rparr>"

definition stub_element :: "nat \<Rightarrow> se_op \<Rightarrow> se_reply" where
  "stub_element k op =
     (case op of
        Random n \<Rightarrow> reply_ok 2 (take n [0, 1, 2, 3, 4, 5, 6, 7, 8, 9, 10, 11, 12, 13, 14, 15])
      | SymmetricEncrypt p iv \<Rightarrow> reply_ok 1 (map (\<lambda>b. xor b 0xFF) p)
      | ReadMetadata oid n \<Rightarrow> reply_ok 1 []
      | WriteMetadata oid d \<Rightarrow> reply_ok 0 []
      | GenerateKey \<Rightarrow> reply_ok 3 [])"

definition env_stub :: env where
  "env_stub = \<lparr>secure_element = stub_element, garbage = (\<lambda>name i. 0xAA),
                snprintf_fails = False, fopen_fails = False, storage_accepts = 80\<rparr>"

text \<open>
  Two more elements: one whose key slot already has metadata, and one that reads empty
  metadata and then fails the metadata write with an error status.
\<close>

definition provisioned_element :: "nat \<Rightarrow> se_op \<Rightarrow> se_reply" where
  "provisioned_element k op =
     (case op of
        ReadMetadata oid n \<Rightarrow> reply_ok 1 (take n e200_metadata)
      | _ \<Rightarrow> stub_element k op)"

definition write_failing_element :: "nat \<Rightarrow> se_op \<Rightarrow> se_reply" where
  "write_failing_element k op =
     (case op of
        WriteMetadata oid d \<Rightarrow>
          \<lparr>api_ret = OPTIGA_LIB_SUCCESS, completion = Some (1, 0x0107), out_data = []\<rparr>
      | _ \<Rightarrow> stub_element k op)"

text \<open>The world after boot, and a waiter's world with a success signal two polls away.\<close>

definition w_boot :: world where
  "w_boot = \<lparr>s_optiga_status = OPTIGA_LIB_SUCCESS, s_log_seq = 0, pending = None,
              se_trace = [], log_file = None, console = []\<rparr>"

definition w_busy :: world where
  "w_busy = w_boot\<lparr>s_optiga_status := OPTIGA_LIB_BUSY, pending := Some (2, OPTIGA_LIB_SUCCESS)\<rparr>"

subsection \<open>Facts about the waiter\<close>

lemma optiga_wait_not_busy:
  "s_optiga_status w \<noteq> OPTIGA_LIB_BUSY \<Longrightarrow>
   optiga_wait w = Some (s_optiga_status w = OPTIGA_LIB_SUCCESS, w)"
  by (subst optiga_wait.simps) simp

lemma optiga_wait_pending:
  "s_optiga_status w = OPTIGA_LIB_BUSY \<Longrightarrow> pending w = Some (n, st) \<Longrightarrow> st \<noteq> OPTIGA_LIB_BUSY \<Longrightarrow>
   optiga_wait w = Some (st = OPTIGA_LIB_SUCCESS, w\<lparr>s_optiga_status := st, pending := None\<rparr>)"
proof (induction n arbitrary: w rule: less_induct)
  case (less n)
  show ?case
  proof (cases "n \<le> 1")
    case True
    with less.prems show ?thesis
      by (subst optiga_wait.simps, subst optiga_wait.simps)
         (simp add: pal_os_timer_delay_in_milliseconds_def optiga_callback_def)
  next
    case False
    let ?w = "w\<lparr>pending := Some (n - 1, st)\<rparr>"
    have "optiga_wait ?w = Some (st = OPTIGA_LIB_SUCCESS, ?w\<lparr>s_optiga_status := st, pending := None\<rparr>)"
      using less.prems False by (intro less.IH[of "n - 1"]) auto
    with less.prems False show ?thesis
      by (subst optiga_wait.simps) (simp add: pal_os_timer_delay_in_milliseconds_def)
  qed
qed

lemma wait_post_delay:
  "wait_post (pal_os_timer_delay_in_milliseconds ms w) r \<Longrightarrow> wait_post w r"
  by (auto simp: wait_post_def pal_os_timer_delay_in_milliseconds_def optiga_callback_def
           split: option.splits prod.splits if_splits)

lemma optiga_wait_post:
  assumes "optiga_wait w = Some r"
  shows "wait_post w r"
proof (rule optiga_wait.raw_induct[where P = wait_post, OF _ assms])
  fix wait :: "world \<Rightarrow> (bool \<times> world) option" and w r
  assume IH: "\<And>x y. wait x = Some y \<Longrightarrow> wait_post x y"
    and body: "(if s_optiga_status w = OPTIGA_LIB_BUSY
                then wait (pal_os_timer_delay_in_milliseconds 5 w)
                else Some (s_optiga_status w = OPTIGA_LIB_SUCCESS, w)) = Some r"
  show "wait_post w r"
  proof (cases "s_optiga_status w = OPTIGA_LIB_BUSY")
    case True
    with body IH have "wait_post (pal_os_timer_delay_in_milliseconds 5 w) r" by simp
    then show ?thesis by (rule wait_post_delay)
  next
    case False
    with body show ?thesis by (auto simp: wait_post_def split: option.splits)
  qed
qed


lemma never_signalled_delay:
  "never_signalled w \<Longrightarrow> never_signalled (pal_os_timer_delay_in_milliseconds ms w)"
  by (auto simp: never_signalled_def pal_os_timer_delay_in_milliseconds_def optiga_callback_def
           split: option.splits prod.splits)

lemma optiga_wait_signalled:
  assumes "optiga_wait w = Some r"
  shows "\<not> never_signalled w"
proof (rule optiga_wait.raw_induct[where P = "\<lambda>w r. \<not> never_signalled w", OF _ assms])
  fix wait :: "world \<Rightarrow> (bool \<times> world) option" and w r
  assume IH: "\<And>x y. wait x = Some y \<Longrightarrow> \<not> never_signalled x"
    and body: "(if s_optiga_status w = OPTIGA_LIB_BUSY
                then wait (pal_os_timer_delay_in_milliseconds 5 w)
                else Some (s_optiga_status w = OPTIGA_LIB_SUCCESS, w)) = Some r"
  show "\<not> never_signalled w"
  proof (cases "s_optiga_status w = OPTIGA_LIB_BUSY")
    case True
    with body IH have "\<not> never_signalled (pal_os_timer_delay_in_milliseconds 5 w)" by simp
    then show ?thesis using never_signalled_delay by blast
  next
    case False
    then show ?thesis by (simp add: never_signalled_def)
  qed
qed

lemma optiga_wait_never:
  "never_signalled w \<Longrightarrow> optiga_wait w = None"
  using optiga_wait_signalled by (cases "optiga_wait w") auto


lemma submit_wait:
  assumes sub: "se_submit e op (w\<lparr>s_optiga_status := OPTIGA_LIB_BUSY\<rparr>) = (ret, d, w1)"
  shows "ret = api_ret (secure_element e (length (se_trace w)) op)"
    and "outcome (secure_element e (length (se_trace w)) op) = Rejected \<Longrightarrow>
           ret \<noteq> OPTIGA_LIB_SUCCESS \<and> w1 = rejected_world op w"
    and "outcome (secure_element e (length (se_trace w)) op) = NoSignal \<Longrightarrow>
           ret = OPTIGA_LIB_SUCCESS \<and> d = out_data (secure_element e (length (se_trace w)) op) \<and>
           optiga_wait w1 = None"
    and "outcome (secure_element e (length (se_trace w)) op) = Completed st \<Longrightarrow>
           ret = OPTIGA_LIB_SUCCESS \<and> d = out_data (secure_element e (length (se_trace w)) op) \<and>
           optiga_wait w1 = Some (st = OPTIGA_LIB_SUCCESS, completed_world op st w)"
proof -
  let ?r = "secure_element e (length (se_trace w)) op"
  show ret: "ret = api_ret ?r"
    using sub by (auto simp: se_submit_def Let_def split: if_splits)
  show "outcome ?r = Rejected \<Longrightarrow> ret \<noteq> OPTIGA_LIB_SUCCESS \<and> w1 = rejected_world op w"
    using sub by (auto simp: se_submit_def Let_def outcome_def rejected_world_def
                       split: if_splits option.splits prod.splits)
  show "outcome ?r = NoSignal \<Longrightarrow>
        ret = OPTIGA_LIB_SUCCESS \<and> d = out_data ?r \<and> optiga_wait w1 = None"
  proof -
    assume o: "outcome ?r = NoSignal"
    then have acc: "api_ret ?r = OPTIGA_LIB_SUCCESS"
      by (auto simp: outcome_def split: if_splits)
    from o acc sub have "never_signalled w1"
      by (auto simp: se_submit_def Let_def outcome_def never_signalled_def optiga_callback_def
               split: if_splits option.splits prod.splits nat.splits)
    then have "optiga_wait w1 = None" by (rule optiga_wait_never)
    with acc sub show ?thesis by (auto simp: se_submit_def Let_def)
  qed
  show "outcome ?r = Completed st \<Longrightarrow>
        ret = OPTIGA_LIB_SUCCESS \<and> d = out_data ?r \<and>
        optiga_wait w1 = Some (st = OPTIGA_LIB_SUCCESS, completed_world op st w)"
  proof -
    assume o: "outcome ?r = Completed st"
    then have acc: "api_ret ?r = OPTIGA_LIB_SUCCESS"
      by (auto simp: outcome_def split: if_splits)
    from o acc obtain n where c: "completion ?r = Some (n, st)" and nb: "st \<noteq> OPTIGA_LIB_BUSY"
      by (auto simp: outcome_def split: if_splits option.splits prod.splits)
    have "optiga_wait w1 = Some (st = OPTIGA_LIB_SUCCESS, completed_world op st w)"
    proof (cases n)
      case 0
      with sub acc c have "w1 = completed_world op st w"
        by (auto simp: se_submit_def Let_def optiga_callback_def completed_world_def)
      with nb show ?thesis
        by (simp add: optiga_wait_not_busy completed_world_def)
    next
      case (Suc m)
      with sub acc c
      have w1: "w1 = w\<lparr>s_optiga_status := OPTIGA_LIB_BUSY, se_trace := se_trace w @ [op],
                        pending := Some (n, st)\<rparr>"
        by (auto simp: se_submit_def Let_def)
      have "optiga_wait w1 = Some (st = OPTIGA_LIB_SUCCESS, w1\<lparr>s_optiga_status := st, pending := None\<rparr>)"
        using nb by (intro optiga_wait_pending[of _ n]) (simp_all add: w1)
      then show ?thesis by (simp add: w1 completed_world_def)
    qed
    with acc sub show ?thesis by (auto simp: se_submit_def Let_def)
  qed
qed


lemma optiga_rng_fill_closed:
  "optiga_rng_fill e out len w =
     (case outcome (secure_element e (length (se_trace w)) (Random len)) of
        Rejected \<Rightarrow> Some (False, out, rejected_world (Random len) w)
      | NoSignal \<Rightarrow> None
      | Completed st \<Rightarrow>
          Some (st = OPTIGA_LIB_SUCCESS,
                write_out out len (out_data (secure_element e (length (se_trace w)) (Random len))),
                completed_world (Random len) st w))"
proof -
  obtain ret d w1 where sub: "se_submit e (Random len) (w\<lparr>s_optiga_status := OPTIGA_LIB_BUSY\<rparr>) = (ret, d, w1)"
    by (cases "se_submit e (Random len) (w\<lparr>s_optiga_status := OPTIGA_LIB_BUSY\<rparr>)") auto
  show ?thesis
    using submit_wait[OF sub]
    by (cases "outcome (secure_element e (length (se_trace w)) (Random len))")
       (simp_all add: optiga_rng_fill_def optiga_crypt_random_def sub)
qed

lemma optiga_key_ready_closed:
  "optiga_key_ready e w =
     (case outcome (secure_element e (length (se_trace w)) (ReadMetadata 0xE200 64)) of
        Rejected \<Rightarrow> Some (False, rejected_world (ReadMetadata 0xE200 64) w)
      | NoSignal \<Rightarrow> None
      | Completed st \<Rightarrow>
          if st \<noteq> OPTIGA_LIB_SUCCESS \<or>
             out_data (secure_element e (length (se_trace w)) (ReadMetadata 0xE200 64)) = []
          then Some (False, completed_world (ReadMetadata 0xE200 64) st w)
          else Some (True, esp_log (ESP_LOGI ''OPTIGA key metadata length: %u'')
                        (completed_world (ReadMetadata 0xE200 64) st w)))"
proof -
  let ?op = "ReadMetadata 0xE200 64"
  obtain ret d w1 where sub: "se_submit e ?op (w\<lparr>s_optiga_status := OPTIGA_LIB_BUSY\<rparr>) = (ret, d, w1)"
    by (cases "se_submit e ?op (w\<lparr>s_optiga_status := OPTIGA_LIB_BUSY\<rparr>)") auto
  show ?thesis
    using submit_wait[OF sub]
    by (cases "outcome (secure_element e (length (se_trace w)) ?op)")
       (auto simp: optiga_key_ready_def optiga_util_read_metadata_def sub min_def split: if_splits)
qed

lemma optiga_write_e200_metadata_closed:
  "optiga_write_e200_metadata e w =
     (let op = WriteMetadata 0xE200 e200_metadata;
          w0 = esp_log (ESP_LOGI ''Writing metadata for OPTIGA key slot 0xE200'') w
      in case outcome (secure_element e (length (se_trace w)) op) of
        Rejected \<Rightarrow> Some (False, esp_log (ESP_LOGE ''optiga_util_write_metadata start failed: 0x%04X'')
                                  (rejected_world op w0))
      | NoSignal \<Rightarrow> None
      | Completed st \<Rightarrow>
          if st \<noteq> OPTIGA_LIB_SUCCESS
          then Some (False, esp_log (ESP_LOGE ''optiga_util_write_metadata failed'') (completed_world op st w0))
          else Some (True, completed_world op st w0))"
proof -
  let ?op = "WriteMetadata 0xE200 e200_metadata"
  let ?w0 = "esp_log (ESP_LOGI ''Writing metadata for OPTIGA key slot 0xE200'') w"
  have tr: "se_trace ?w0 = se_trace w" by (simp add: esp_log_def)
  obtain ret d w1 where sub: "se_submit e ?op (?w0\<lparr>s_optiga_status := OPTIGA_LIB_BUSY\<rparr>) = (ret, d, w1)"
    by (cases "se_submit e ?op (?w0\<lparr>s_optiga_status := OPTIGA_LIB_BUSY\<rparr>)") auto
  show ?thesis
    using submit_wait[OF sub]
    by (cases "outcome (secure_element e (length (se_trace w)) ?op)")
       (auto simp: optiga_write_e200_metadata_def optiga_util_write_metadata_def sub tr Let_def)
qed

lemma generate_key_tail_closed:
  "generate_key_tail e w =
     (let w0 = esp_log (ESP_LOGI ''Generating AES-128 key in OPTIGA (OID 0xE200)...'') w
      in case outcome (secure_element e (length (se_trace w)) GenerateKey) of
        Rejected \<Rightarrow> Some (False, esp_log (ESP_LOGE ''optiga_crypt_symmetric_generate_key start failed: 0x%04X'')
                                  (rejected_world GenerateKey w0))
      | NoSignal \<Rightarrow> None
      | Completed st \<Rightarrow>
          if st \<noteq> OPTIGA_LIB_SUCCESS
          then Some (False, esp_log (ESP_LOGE ''optiga_crypt_symmetric_generate_key failed'')
                             (completed_world GenerateKey st w0))
          else Some (True, esp_log (ESP_LOGI ''AES key generated in OPTIGA'') (completed_world GenerateKey st w0)))"
proof -
  let ?op = "GenerateKey"
  let ?w0 = "esp_log (ESP_LOGI ''Generating AES-128 key in OPTIGA (OID 0xE200)...'') w"
  have tr: "se_trace ?w0 = se_trace w" by (simp add: esp_log_def)
  obtain ret d w1 where sub: "se_submit e ?op (?w0\<lparr>s_optiga_status := OPTIGA_LIB_BUSY\<rparr>) = (ret, d, w1)"
    by (cases "se_submit e ?op (?w0\<lparr>s_optiga_status := OPTIGA_LIB_BUSY\<rparr>)") auto
  show ?thesis
    using submit_wait[OF sub]
    by (cases "outcome (secure_element e (length (se_trace w)) ?op)")
       (auto simp: generate_key_tail_def optiga_crypt_symmetric_generate_key_def sub tr Let_def)
qed


lemma memcpy_pad:
  "memcpy (replicate PLAINTEXT_MAX 0) 0 plaintext pt_len =
     (if PLAINTEXT_MAX < pt_len \<or> length plaintext < pt_len then Inl BufferOverflow
      else Inr (padded plaintext pt_len))"
  by (auto simp: memcpy_def padded_def)

lemma length_fresh_iv: "length (fresh_iv e w) = AES_IV_BYTES"
  by (simp add: fresh_iv_def write_out_def uninit_def)

lemma length_padded: "pt_len \<le> PLAINTEXT_MAX \<Longrightarrow> pt_len \<le> length plaintext \<Longrightarrow>
    length (padded plaintext pt_len) = PLAINTEXT_MAX"
  by (simp add: padded_def)

lemma memcpy_record:
  assumes "length iv = AES_IV_BYTES" "length ct = PLAINTEXT_MAX"
  shows "(case memcpy record 0 iv AES_IV_BYTES of
            Inl f \<Rightarrow> Some (Inl f)
          | Inr record1 \<Rightarrow>
              (case memcpy record1 AES_IV_BYTES ct PLAINTEXT_MAX of
                 Inl f \<Rightarrow> Some (Inl f)
               | Inr record2 \<Rightarrow> Some (Inr (True, record2, w3)))) =
         (if length record < AES_IV_BYTES + PLAINTEXT_MAX then Some (Inl BufferOverflow)
          else Some (Inr (True, iv @ ct @ drop (AES_IV_BYTES + PLAINTEXT_MAX) record, w3)))"
  using assms by (auto simp: memcpy_def AES_IV_BYTES_def PLAINTEXT_MAX_def)

lemma encrypt_after_iv:
  assumes tr: "length (se_trace w1) = Suc k" and len: "length ivb = AES_IV_BYTES"
  shows "(case optiga_crypt_symmetric_encrypt e pt ivb (uninit e ''ciphertext'' PLAINTEXT_MAX) PLAINTEXT_MAX
                 (w1\<lparr>s_optiga_status := OPTIGA_LIB_BUSY\<rparr>) of
            (ret, ciphertext, cipher_len, w2) \<Rightarrow>
              if ret \<noteq> OPTIGA_LIB_SUCCESS
              then Some (Inr (False, buf,
                     esp_log (ESP_LOGE ''optiga_crypt_symmetric_encrypt start failed: 0x%04X'') w2))
              else
                (case optiga_wait w2 of
                   None \<Rightarrow> None
                 | Some (enc_ok, w3) \<Rightarrow>
                     if \<not> enc_ok
                     then Some (Inr (False, buf,
                            esp_log (ESP_LOGE ''optiga_crypt_symmetric_encrypt failed'') w3))
                     else if cipher_len \<noteq> PLAINTEXT_MAX
                     then Some (Inr (False, buf,
                            esp_log (ESP_LOGE ''unexpected ciphertext length: %lu'') w3))
                     else
                       (case memcpy buf 0 ivb AES_IV_BYTES of
                          Inl f \<Rightarrow> Some (Inl f)
                        | Inr record1 \<Rightarrow>
                            (case memcpy record1 AES_IV_BYTES ciphertext PLAINTEXT_MAX of
                               Inl f \<Rightarrow> Some (Inl f)
                             | Inr record2 \<Rightarrow> Some (Inr (True, record2, w3)))))) =
         (let op = SymmetricEncrypt pt ivb; r = secure_element e (Suc k) op
          in case outcome r of
               Rejected \<Rightarrow> Some (Inr (False, buf,
                   esp_log (ESP_LOGE ''optiga_crypt_symmetric_encrypt start failed: 0x%04X'')
                     (rejected_world op w1)))
             | NoSignal \<Rightarrow> None
             | Completed st \<Rightarrow>
                 if st \<noteq> OPTIGA_LIB_SUCCESS
                 then Some (Inr (False, buf,
                        esp_log (ESP_LOGE ''optiga_crypt_symmetric_encrypt failed'') (completed_world op st w1)))
                 else if length (out_data r) < PLAINTEXT_MAX
                 then Some (Inr (False, buf,
                        esp_log (ESP_LOGE ''unexpected ciphertext length: %lu'') (completed_world op st w1)))
                 else if length buf < AES_IV_BYTES + PLAINTEXT_MAX then Some (Inl BufferOverflow)
                 else Some (Inr (True, ivb @ take PLAINTEXT_MAX (out_data r) @
                                       drop (AES_IV_BYTES + PLAINTEXT_MAX) buf,
                                 completed_world op st w1)))"
proof -
  let ?op = "SymmetricEncrypt pt ivb"
  let ?r = "secure_element e (Suc k) ?op"
  obtain ret d w2 where sub: "se_submit e ?op (w1\<lparr>s_optiga_status := OPTIGA_LIB_BUSY\<rparr>) = (ret, d, w2)"
    by (cases "se_submit e ?op (w1\<lparr>s_optiga_status := OPTIGA_LIB_BUSY\<rparr>)") auto
  note sw = submit_wait[OF sub, unfolded tr]
  show ?thesis
  proof (cases "outcome ?r")
    case Rejected
    with sw show ?thesis
      by (simp add: optiga_crypt_symmetric_encrypt_def sub Let_def)
  next
    case NoSignal
    with sw show ?thesis
      by (simp add: optiga_crypt_symmetric_encrypt_def sub Let_def)
  next
    case (Completed st)
    show ?thesis
    proof (cases "st = OPTIGA_LIB_SUCCESS \<and> PLAINTEXT_MAX \<le> length (out_data ?r)")
      case False
      with Completed sw(1) sw(4)[of st] show ?thesis
        by (auto simp: optiga_crypt_symmetric_encrypt_def sub Let_def min_def)
    next
      case True
      then have ct: "write_out (uninit e ''ciphertext'' PLAINTEXT_MAX) PLAINTEXT_MAX (out_data ?r)
                     = take PLAINTEXT_MAX (out_data ?r)"
        by (simp add: write_out_def uninit_def min_def)
      have lct: "length (take PLAINTEXT_MAX (out_data ?r)) = PLAINTEXT_MAX"
        using True by simp
      from Completed True sw(1) sw(4)[of st] show ?thesis
        by (simp add: optiga_crypt_symmetric_encrypt_def sub Let_def ct lct
             memcpy_record[OF len lct] del: length_take)
    qed
  qed
qed


lemma encrypt_record_closed:
  "encrypt_record e plaintext pt_len record record_len w =
     (if record_len < AES_IV_BYTES + PLAINTEXT_MAX then Some (Inr (False, record, w))
      else
        (case outcome (rng_reply e w) of
           Rejected \<Rightarrow> Some (Inr (False, record,
               esp_log (ESP_LOGE ''IV generation failed'') (rejected_world (Random AES_IV_BYTES) w)))
         | NoSignal \<Rightarrow> None
         | Completed st \<Rightarrow>
             if st \<noteq> OPTIGA_LIB_SUCCESS
             then Some (Inr (False, record,
                    esp_log (ESP_LOGE ''IV generation failed'') (completed_world (Random AES_IV_BYTES) st w)))
             else if PLAINTEXT_MAX < pt_len \<or> length plaintext < pt_len then Some (Inl BufferOverflow)
             else
               (let op = encrypt_op e plaintext pt_len w;
                    w1 = completed_world (Random AES_IV_BYTES) OPTIGA_LIB_SUCCESS w
                in case outcome (enc_reply e plaintext pt_len w) of
                     Rejected \<Rightarrow> Some (Inr (False, record,
                         esp_log (ESP_LOGE ''optiga_crypt_symmetric_encrypt start failed: 0x%04X'')
                           (rejected_world op w1)))
                   | NoSignal \<Rightarrow> None
                   | Completed st2 \<Rightarrow>
                       if st2 \<noteq> OPTIGA_LIB_SUCCESS
                       then Some (Inr (False, record,
                              esp_log (ESP_LOGE ''optiga_crypt_symmetric_encrypt failed'')
                                (completed_world op st2 w1)))
                       else if length (out_data (enc_reply e plaintext pt_len w)) < PLAINTEXT_MAX
                       then Some (Inr (False, record,
                              esp_log (ESP_LOGE ''unexpected ciphertext length: %lu'')
                                (completed_world op st2 w1)))
                       else if length record < AES_IV_BYTES + PLAINTEXT_MAX then Some (Inl BufferOverflow)
                       else Some (Inr (True,
                              fresh_iv e w @ se_ciphertext e plaintext pt_len w @
                                drop (AES_IV_BYTES + PLAINTEXT_MAX) record,
                              completed_world op st2 w1)))))"
proof (cases "record_len < AES_IV_BYTES + PLAINTEXT_MAX")
  case True
  then show ?thesis by (simp add: encrypt_record_def)
next
  case big: False
  show ?thesis
  proof (cases "outcome (rng_reply e w)")
    case Rejected
    with big show ?thesis
      by (simp add: encrypt_record_def optiga_rng_fill_closed rng_reply_def)
  next
    case NoSignal
    with big show ?thesis
      by (simp add: encrypt_record_def optiga_rng_fill_closed rng_reply_def)
  next
    case (Completed st)
    show ?thesis
    proof (cases "st = OPTIGA_LIB_SUCCESS")
      case False
      with big Completed show ?thesis
        by (simp add: encrypt_record_def optiga_rng_fill_closed rng_reply_def)
    next
      case ok: True
      show ?thesis
      proof (cases "PLAINTEXT_MAX < pt_len \<or> length plaintext < pt_len")
        case True
        with big Completed ok show ?thesis
          by (simp add: encrypt_record_def optiga_rng_fill_closed rng_reply_def memcpy_pad)
      next
        case False
        let ?w1 = "completed_world (Random AES_IV_BYTES) OPTIGA_LIB_SUCCESS w"
        have tr: "length (se_trace ?w1) = Suc (length (se_trace w))"
          by (simp add: completed_world_def)
        have rng: "optiga_rng_fill e (uninit e ''iv'' AES_IV_BYTES) AES_IV_BYTES w =
                     Some (True, fresh_iv e w, ?w1)"
          using Completed ok by (simp add: optiga_rng_fill_closed rng_reply_def fresh_iv_def)
        note enc = encrypt_after_iv[OF tr length_fresh_iv, where e = e and pt = "padded plaintext pt_len"
                                       and buf = "record"]
        have "encrypt_record e plaintext pt_len record record_len w =
              (let op = SymmetricEncrypt (padded plaintext pt_len) (fresh_iv e w);
                   r = secure_element e (Suc (length (se_trace w))) op
               in case outcome r of
                    Rejected \<Rightarrow> Some (Inr (False, record,
                        esp_log (ESP_LOGE ''optiga_crypt_symmetric_encrypt start failed: 0x%04X'')
                          (rejected_world op ?w1)))
                  | NoSignal \<Rightarrow> None
                  | Completed st \<Rightarrow>
                      if st \<noteq> OPTIGA_LIB_SUCCESS
                      then Some (Inr (False, record,
                             esp_log (ESP_LOGE ''optiga_crypt_symmetric_encrypt failed'') (completed_world op st ?w1)))
                      else if length (out_data r) < PLAINTEXT_MAX
                      then Some (Inr (False, record,
                             esp_log (ESP_LOGE ''unexpected ciphertext length: %lu'') (completed_world op st ?w1)))
                      else if length record < AES_IV_BYTES + PLAINTEXT_MAX then Some (Inl BufferOverflow)
                      else Some (Inr (True, fresh_iv e w @ take PLAINTEXT_MAX (out_data r) @
                                            drop (AES_IV_BYTES + PLAINTEXT_MAX) record,
                                      completed_world op st ?w1)))"
          unfolding encrypt_record_def rng memcpy_pad enc[symmetric]
          using big False by (simp only: if_False if_True option.case prod.case sum.case simp_thms)
        with big Completed ok False show ?thesis
          unfolding enc_reply_def encrypt_op_def se_ciphertext_def Let_def by simp
      qed
    qed
  qed
qed


section \<open>The claims\<close>

lemma w_busy_wait: "optiga_wait w_busy = Some (True, w_boot)"
proof -
  have "optiga_wait w_busy =
        Some (OPTIGA_LIB_SUCCESS = OPTIGA_LIB_SUCCESS,
              w_busy\<lparr>s_optiga_status := OPTIGA_LIB_SUCCESS, pending := None\<rparr>)"
    by (rule optiga_wait_pending[of _ 2])
       (simp_all add: w_busy_def OPTIGA_LIB_BUSY_def OPTIGA_LIB_SUCCESS_def)
  then show ?thesis by (simp add: w_busy_def w_boot_def)
qed

text \<open>
  C7, as stated: after every return of the waiter \<open>optiga_wait\<close> the shared status has been
  consumed and reset to Idle. It fails: a waiter released by a success signal returns true
  and leaves the status word at \<open>OPTIGA_LIB_SUCCESS\<close>, which reads as Success, not Idle.
\<close>

theorem optiga_wait_status_not_reset:
  "optiga_wait w_busy = Some (True, w_boot) \<and>
   s_optiga_status w_boot = OPTIGA_LIB_SUCCESS \<and>
   operation_status (s_optiga_status w_boot) = Success \<and>
   operation_status (s_optiga_status w_boot) \<noteq> Idle"
  by (simp add: w_busy_wait)
     (simp add: w_boot_def operation_status_def OPTIGA_LIB_BUSY_def OPTIGA_LIB_SUCCESS_def)

text \<open>
  C7, amended: the waiter only reads the status. After every return the status is final
  (not Busy, and never Idle), the result is true exactly when it is Success, and it is the
  status the waiter found on entry or the one the pending completion signal carried; it
  stays in the status word until the next submission overwrites it.
\<close>

theorem optiga_wait_leaves_final_status:
  assumes "optiga_wait w = Some (ok, w')"
  shows "s_optiga_status w' \<noteq> OPTIGA_LIB_BUSY \<and>
         ok = (s_optiga_status w' = OPTIGA_LIB_SUCCESS) \<and>
         (s_optiga_status w' = s_optiga_status w \<or>
          (\<exists>n. pending w = Some (n, s_optiga_status w'))) \<and>
         operation_status (s_optiga_status w') \<noteq> Idle"
  using optiga_wait_post[OF assms]
  by (auto simp: wait_post_def operation_status_def split: option.splits)

theorem optiga_wait_leaves_final_status_witness:
  "optiga_wait w_busy = Some (True, w_boot) \<and>
   s_optiga_status w_boot \<noteq> OPTIGA_LIB_BUSY \<and>
   True = (s_optiga_status w_boot = OPTIGA_LIB_SUCCESS) \<and>
   (s_optiga_status w_boot = s_optiga_status w_busy \<or>
    (\<exists>n. pending w_busy = Some (n, s_optiga_status w_boot))) \<and>
   operation_status (s_optiga_status w_boot) \<noteq> Idle"
  by (rule conjI[OF w_busy_wait optiga_wait_leaves_final_status[OF w_busy_wait]])

text \<open>
  C10: called with an output buffer of fewer than 80 bytes, \<open>encrypt_record\<close> returns false
  at once: the record buffer and the whole world are as before, so no random fill and no
  encryption has been submitted to the secure element.
\<close>

theorem encrypt_record_small_output:
  assumes "record_len < 80"
  shows "encrypt_record e plaintext pt_len record record_len w = Some (Inr (False, record, w))"
  using assms by (simp add: encrypt_record_def AES_IV_BYTES_def PLAINTEXT_MAX_def)

theorem encrypt_record_small_output_witness:
  "(79::nat) < 80 \<and>
   encrypt_record env_stub [1, 2, 3] 3 (replicate 79 0) 79 w_boot =
     Some (Inr (False, replicate 79 0, w_boot))"
  using encrypt_record_small_output[of 79 env_stub "[1, 2, 3]" 3 "replicate 79 0" w_boot] by simp

lemma length_uninit [simp]: "length (uninit e name n) = n"
  by (simp add: uninit_def)

lemma stub_rng: "outcome (rng_reply env_stub w_boot) = Completed OPTIGA_LIB_SUCCESS"
  by (simp add: rng_reply_def env_stub_def stub_element_def reply_ok_def outcome_def
        OPTIGA_LIB_BUSY_def OPTIGA_LIB_SUCCESS_def)

lemma stub_iv: "fresh_iv env_stub w_boot = [0, 1, 2, 3, 4, 5, 6, 7, 8, 9, 10, 11, 12, 13, 14, 15]"
  by (simp add: fresh_iv_def rng_reply_def env_stub_def stub_element_def reply_ok_def write_out_def
        AES_IV_BYTES_def)

lemma stub_enc: "outcome (enc_reply env_stub p n w_boot) = Completed OPTIGA_LIB_SUCCESS"
  by (simp add: enc_reply_def encrypt_op_def env_stub_def stub_element_def reply_ok_def outcome_def
        OPTIGA_LIB_BUSY_def OPTIGA_LIB_SUCCESS_def)

lemma stub_ciphertext:
  "se_ciphertext env_stub [0x41, 0x42] 2 w_boot = [0xBE, 0xBD] @ replicate 62 0xFF"
  by (simp add: se_ciphertext_def enc_reply_def encrypt_op_def env_stub_def stub_element_def
        reply_ok_def padded_def PLAINTEXT_MAX_def)

lemma stub_encrypt_record:
  "encrypt_record env_stub [0x41, 0x42] 2 (replicate 80 0) 80 w_boot =
     Some (Inr (True,
       [0, 1, 2, 3, 4, 5, 6, 7, 8, 9, 10, 11, 12, 13, 14, 15] @ [0xBE, 0xBD] @ replicate 62 0xFF,
       completed_world (encrypt_op env_stub [0x41, 0x42] 2 w_boot) OPTIGA_LIB_SUCCESS
         (completed_world (Random AES_IV_BYTES) OPTIGA_LIB_SUCCESS w_boot)))"
  by (simp add: encrypt_record_closed stub_rng stub_enc stub_iv stub_ciphertext Let_def)
     (simp add: AES_IV_BYTES_def PLAINTEXT_MAX_def enc_reply_def encrypt_op_def env_stub_def
        stub_element_def reply_ok_def padded_def)

text \<open>
  C2: for a plaintext of at most 64 bytes (held by the source buffer, with a record buffer of
  the stated size), \<open>encrypt_record\<close> never overruns a buffer. When it returns false the
  record buffer is as before, and the output buffer was too small, or the random fill or the
  encryption did not complete with success, or fewer than 64 bytes of ciphertext came back.
  When it returns true, the random fill and the encryption both completed with success, the
  requests submitted were exactly that random fill and that encryption of the zero-padded
  plaintext under the IV, and the first 80 bytes of the record buffer are the 16 bytes of
  the IV that the random fill delivered followed by the 64 bytes of ciphertext that the
  encryption delivered; the rest of the buffer (none when it has 80 bytes) is untouched. It
  fails to return only when the secure element never signals the completion of the random
  fill or of the encryption.
\<close>

theorem encrypt_record_fixed_size:
  assumes "pt_len \<le> PLAINTEXT_MAX" and "pt_len \<le> length plaintext" and "length record = record_len"
  shows "case encrypt_record e plaintext pt_len record record_len w of
           None \<Rightarrow> 80 \<le> record_len \<and>
                    (outcome (rng_reply e w) = NoSignal \<or>
                     outcome (enc_reply e plaintext pt_len w) = NoSignal)
         | Some (Inl f) \<Rightarrow> False
         | Some (Inr (ok, record', w')) \<Rightarrow>
             if ok
             then record' = fresh_iv e w @ se_ciphertext e plaintext pt_len w @ drop 80 record \<and>
                  length (fresh_iv e w) = 16 \<and>
                  length (se_ciphertext e plaintext pt_len w) = 64 \<and>
                  length record' = record_len \<and>
                  outcome (rng_reply e w) = Completed OPTIGA_LIB_SUCCESS \<and>
                  outcome (enc_reply e plaintext pt_len w) = Completed OPTIGA_LIB_SUCCESS \<and>
                  fresh_iv e w = take 16 (out_data (rng_reply e w)) @
                                 drop (length (out_data (rng_reply e w))) (uninit e ''iv'' 16) \<and>
                  se_ciphertext e plaintext pt_len w = take 64 (out_data (enc_reply e plaintext pt_len w)) \<and>
                  64 \<le> length (out_data (enc_reply e plaintext pt_len w)) \<and>
                  se_trace w' = se_trace w @ [Random 16, encrypt_op e plaintext pt_len w]
             else record' = record \<and>
                  (record_len < 80 \<or>
                   outcome (rng_reply e w) \<noteq> Completed OPTIGA_LIB_SUCCESS \<or>
                   outcome (enc_reply e plaintext pt_len w) \<noteq> Completed OPTIGA_LIB_SUCCESS \<or>
                   length (out_data (enc_reply e plaintext pt_len w)) < 64)"
  using assms length_fresh_iv[of e w]
  by (auto simp: encrypt_record_closed Let_def se_ciphertext_def fresh_iv_def write_out_def
                 completed_world_def AES_IV_BYTES_def PLAINTEXT_MAX_def min_def
           split: se_outcome.splits)

theorem encrypt_record_fixed_size_witness:
  "(2::nat) \<le> PLAINTEXT_MAX \<and> 2 \<le> length [0x41, 0x42 :: byte] \<and>
   length (replicate 80 (0::byte)) = 80 \<and>
   outcome (rng_reply env_stub w_boot) = Completed OPTIGA_LIB_SUCCESS \<and>
   outcome (enc_reply env_stub [0x41, 0x42] 2 w_boot) = Completed OPTIGA_LIB_SUCCESS \<and>
   (case encrypt_record env_stub [0x41, 0x42] 2 (replicate 80 0) 80 w_boot of
      None \<Rightarrow> False
    | Some (Inl f) \<Rightarrow> False
    | Some (Inr (ok, record', w')) \<Rightarrow>
        ok \<and> length record' = 80 \<and>
        record' = fresh_iv env_stub w_boot @ se_ciphertext env_stub [0x41, 0x42] 2 w_boot @
                  drop 80 (replicate 80 0) \<and>
        take 16 record' = [0, 1, 2, 3, 4, 5, 6, 7, 8, 9, 10, 11, 12, 13, 14, 15] \<and>
        drop 16 record' = [0xBE, 0xBD] @ replicate 62 0xFF)"
  using encrypt_record_fixed_size[of 2 "[0x41, 0x42]" "replicate 80 0" 80 env_stub w_boot]
  by (simp add: stub_encrypt_record stub_iv stub_ciphertext stub_rng stub_enc PLAINTEXT_MAX_def)

lemma se_trace_esp_log [simp]: "se_trace (esp_log l w) = se_trace w"
  by (simp add: esp_log_def)

lemma se_trace_completed [simp]: "se_trace (completed_world op st w) = se_trace w @ [op]"
  by (simp add: completed_world_def)

lemma se_trace_rejected [simp]: "se_trace (rejected_world op w) = se_trace w @ [op]"
  by (simp add: rejected_world_def)

lemmas stub_defs = env_stub_def stub_element_def provisioned_element_def write_failing_element_def
  reply_ok_def outcome_def w_boot_def e200_metadata_def OPTIGA_LIB_BUSY_def OPTIGA_LIB_SUCCESS_def

text \<open>
  C3, as stated: under the non-destructive policy a read of slot 0xE200 that succeeds with
  non-empty metadata leads to no write-metadata and no generate-key and to success;
  otherwise exactly one write-metadata and exactly one generate-key occur. The second half
  fails: when the metadata write itself fails, provisioning stops there and no key is
  generated.
\<close>

theorem provisioning_write_failure_skips_key:
  "provisioning (env_stub\<lparr>secure_element := write_failing_element\<rparr>) w_boot =
     Some (False, [ReadMetadata 0xE200 64, WriteMetadata 0xE200 e200_metadata])"
proof -
  let ?e = "env_stub\<lparr>secure_element := write_failing_element\<rparr>"
  have rd: "outcome (secure_element ?e 0 (ReadMetadata 0xE200 64)) = Completed OPTIGA_LIB_SUCCESS"
    and empty: "out_data (secure_element ?e 0 (ReadMetadata 0xE200 64)) = []"
    and wr: "outcome (secure_element ?e (Suc 0) (WriteMetadata 0xE200 e200_metadata)) = Completed 0x0107"
    by (simp_all add: stub_defs)
  have ready: "optiga_key_ready ?e w_boot =
                 Some (False, completed_world (ReadMetadata 0xE200 64) OPTIGA_LIB_SUCCESS w_boot)"
    using rd empty by (simp add: optiga_key_ready_closed w_boot_def)
  show ?thesis
    using wr
    by (simp add: provisioning_def optiga_generate_key_if_enabled_def ready
          optiga_write_e200_metadata_closed Let_def)
       (simp add: w_boot_def OPTIGA_LIB_SUCCESS_def)
qed

text \<open>
  C3, amended: under the non-destructive policy, provisioning first reads the metadata of
  slot 0xE200. If the read completes successfully with a non-empty blob, nothing else is
  submitted and the result is success. If the read is rejected, fails or returns empty
  metadata, exactly one write-metadata is submitted; exactly one generate-key follows when
  that write succeeds (the result is then whether the key generation succeeded), and none
  when the write is rejected or fails (the result is failure). Provisioning does not return
  while a request it waits for never completes.
\<close>

theorem provisioning_non_destructive:
  "provisioning e w =
     (let k = length (se_trace w);
          rd = ReadMetadata 0xE200 64;
          wr = WriteMetadata 0xE200 e200_metadata;
          r_rd = secure_element e k rd;
          r_wr = secure_element e (k + 1) wr;
          r_gk = secure_element e (k + 2) GenerateKey
      in if outcome r_rd = NoSignal then None
         else if outcome r_rd = Completed OPTIGA_LIB_SUCCESS \<and> out_data r_rd \<noteq> []
         then Some (True, [rd])
         else if outcome r_wr = NoSignal then None
         else if outcome r_wr \<noteq> Completed OPTIGA_LIB_SUCCESS then Some (False, [rd, wr])
         else if outcome r_gk = NoSignal then None
         else Some (outcome r_gk = Completed OPTIGA_LIB_SUCCESS, [rd, wr, GenerateKey]))"
  unfolding provisioning_def optiga_generate_key_if_enabled_def Let_def
  by (cases "outcome (secure_element e (length (se_trace w)) (ReadMetadata 0xE200 64))";
      cases "outcome (secure_element e (Suc (length (se_trace w))) (WriteMetadata 0xE200 e200_metadata))";
      cases "outcome (secure_element e (Suc (Suc (length (se_trace w)))) GenerateKey)")
     (simp_all add: optiga_key_ready_closed optiga_write_e200_metadata_closed
        generate_key_tail_closed Let_def)

theorem provisioning_non_destructive_witness:
  "provisioning (env_stub\<lparr>secure_element := provisioned_element\<rparr>) w_boot =
     Some (True, [ReadMetadata 0xE200 64]) \<and>
   provisioning env_stub w_boot =
     Some (True, [ReadMetadata 0xE200 64, WriteMetadata 0xE200 e200_metadata, GenerateKey])"
  using provisioning_non_destructive[of "env_stub\<lparr>secure_element := provisioned_element\<rparr>" w_boot]
        provisioning_non_destructive[of env_stub w_boot]
  by (simp add: Let_def stub_defs)

lemma fread_loop_chunks:
  "fread_loop rest w = w\<lparr>console := console w @ map ESP_LOG_BUFFER_HEX (fread_chunks rest)\<rparr>"
proof (induction rest w rule: fread_loop.induct)
  case (1 rest w)
  show ?case
  proof (cases "length (take 32 rest) > 0")
    case True
    with 1 show ?thesis
      by (subst fread_loop.simps, subst fread_chunks.simps) (simp add: esp_log_def)
  next
    case False
    then show ?thesis
      by (subst fread_loop.simps, subst fread_chunks.simps) simp
  qed
qed

lemma concat_fread_chunks: "concat (fread_chunks rest) = rest"
proof (induction rest rule: fread_chunks.induct)
  case (1 rest)
  show ?case
  proof (cases "length (take 32 rest) > 0")
    case True
    with 1 show ?thesis by (subst fread_chunks.simps) simp
  next
    case False
    then show ?thesis by (subst fread_chunks.simps) simp
  qed
qed

lemma fread_chunks_bounds: "c \<in> set (fread_chunks rest) \<Longrightarrow> 0 < length c \<and> length c \<le> 32"
proof (induction rest rule: fread_chunks.induct)
  case (1 rest)
  show ?case
  proof (cases "length (take 32 rest) > 0")
    case True
    with 1 show ?thesis by (subst (asm) (2) fread_chunks.simps) (auto split: if_splits)
  next
    case False
    with 1(2) show ?thesis by (subst (asm) fread_chunks.simps) simp
  qed
qed

lemma chunks_81:
  "fread_chunks (replicate 81 x) = [replicate 32 x, replicate 32 x, replicate 17 x]"
  by (subst fread_chunks.simps, simp)+

text \<open>
  C4, as stated: reading a file whose length is not a multiple of 80, \<open>print_log_file_hex\<close>
  flags it as corrupted rather than rendering the misaligned bytes. It fails: for a file of
  81 bytes the console shows the heading and three hex chunks of 32, 32 and 17 bytes, and
  nothing else.
\<close>

theorem print_log_file_hex_misaligned:
  "console (print_log_file_hex env_stub (w_boot\<lparr>log_file := Some (replicate 81 0x11)\<rparr>)) =
     [ESP_LOGI ''raw file content (hex):'',
      ESP_LOG_BUFFER_HEX (replicate 32 0x11),
      ESP_LOG_BUFFER_HEX (replicate 32 0x11),
      ESP_LOG_BUFFER_HEX (replicate 17 0x11)]"
  by (simp add: print_log_file_hex_def fread_loop_chunks chunks_81 esp_log_def env_stub_def w_boot_def)

text \<open>
  C4, amended: \<open>print_log_file_hex\<close> makes no check of the file length. For a file it can
  open, of any length, it logs the heading and then every byte of the file in order, in
  chunks of 1 to 32 bytes, and changes nothing else; no corruption is flagged.
\<close>

theorem print_log_file_hex_any_length:
  assumes "\<not> fopen_fails e" and "log_file w = Some content"
  shows "print_log_file_hex e w =
           w\<lparr>console := console w @ ESP_LOGI ''raw file content (hex):'' #
                                    map ESP_LOG_BUFFER_HEX (fread_chunks content)\<rparr> \<and>
         concat (fread_chunks content) = content \<and>
         (\<forall>c \<in> set (fread_chunks content). 0 < length c \<and> length c \<le> 32)"
  using assms fread_chunks_bounds
  by (auto simp: print_log_file_hex_def fread_loop_chunks esp_log_def concat_fread_chunks)

theorem print_log_file_hex_any_length_witness:
  "\<not> fopen_fails env_stub \<and>
   log_file (w_boot\<lparr>log_file := Some (replicate 81 0x11)\<rparr>) = Some (replicate 81 0x11) \<and>
   print_log_file_hex env_stub (w_boot\<lparr>log_file := Some (replicate 81 0x11)\<rparr>) =
     w_boot\<lparr>log_file := Some (replicate 81 0x11),
            console := [ESP_LOGI ''raw file content (hex):'',
                        ESP_LOG_BUFFER_HEX (replicate 32 0x11),
                        ESP_LOG_BUFFER_HEX (replicate 32 0x11),
                        ESP_LOG_BUFFER_HEX (replicate 17 0x11)]\<rparr> \<and>
   concat (fread_chunks (replicate 81 (0x11 :: byte))) = replicate 81 0x11"
  using print_log_file_hex_any_length[of env_stub "w_boot\<lparr>log_file := Some (replicate 81 0x11)\<rparr>"
          "replicate 81 0x11"]
  by (simp add: chunks_81 env_stub_def w_boot_def)

lemma length_show_nat: "n < 10 ^ k \<Longrightarrow> 0 < k \<Longrightarrow> length (show_nat n) \<le> k"
proof (induction n arbitrary: k rule: show_nat.induct)
  case (1 n)
  show ?case
  proof (cases "n < 10")
    case True
    with 1(3) show ?thesis by (subst show_nat.simps) simp
  next
    case False
    obtain j where k: "k = Suc j" using 1(3) by (cases k) auto
    have "0 < j"
    proof (rule ccontr)
      assume "\<not> 0 < j"
      with k 1(2) False show False by simp
    qed
    moreover have "n div 10 < 10 ^ j" using 1(2) k by (simp add: less_mult_imp_div_less)
    ultimately have "length (show_nat (n div 10)) \<le> j" using 1(1)[OF False] by simp
    with False k show ?thesis by (subst show_nat.simps) simp
  qed
qed

lemma length_show_seq: "length (show_nat (unat (seq :: 32 word))) \<le> 10"
proof -
  have "unat seq < 2 ^ 32" using unsigned_less[of seq] by simp
  then have "unat seq < 10 ^ 10" by simp
  then show ?thesis by (rule length_show_nat) simp
qed

lemma abs_sdiv_1000: "\<bar>(a::int) sdiv 1000\<bar> \<le> \<bar>a\<bar>"
proof -
  have eq: "a sdiv 1000 = sgn a * (\<bar>a\<bar> div 1000)"
    by (simp add: signed_divide_int_def)
  have "0 \<le> \<bar>a\<bar> div 1000" and "\<bar>a\<bar> div 1000 \<le> \<bar>a\<bar>" by arith+
  moreover have "\<bar>sgn a * (\<bar>a\<bar> div 1000)\<bar> = \<bar>sgn a\<bar> * \<bar>\<bar>a\<bar> div 1000\<bar>" by (rule abs_mult)
  moreover have "\<bar>sgn a\<bar> \<le> 1" by (simp add: sgn_if)
  ultimately show ?thesis unfolding eq
    by (cases "a = 0") (simp_all add: abs_sgn_eq)
qed

lemma length_show_uptime: "length (show_int (sint (now :: 64 word) sdiv 1000)) \<le> 20"
proof -
  let ?u = "sint now sdiv 1000"
  have "\<bar>sint now\<bar> \<le> 2 ^ 63"
    using sint_lt[of now] sint_ge[of now] by simp
  with abs_sdiv_1000[of "sint now"] have "\<bar>?u\<bar> \<le> 2 ^ 63" by linarith
  then have "nat \<bar>?u\<bar> < 10 ^ 19" by simp
  then have "length (show_nat (nat \<bar>?u\<bar>)) \<le> 19" by (rule length_show_nat) simp
  then show ?thesis by (auto simp: show_int_def abs_if split: if_splits)
qed

lemma length_format_msg: "length (format_msg seq (sint (now :: 64 word) sdiv 1000)) \<le> 51"
  using length_show_seq[of seq] length_show_uptime[of now]
  by (simp add: format_msg_def)


lemma log_message_failed: "snprintf_fails e \<Longrightarrow> fst (log_message e now w) = - 1"
  by (simp add: log_message_def snprintf_def)

lemma log_message_written:
  "\<not> snprintf_fails e \<Longrightarrow>
   fst (log_message e now w) = int (length (format_msg (s_log_seq w + 1) (sint now sdiv 1000)))"
  by (simp add: log_message_def snprintf_def)

lemma log_message_bound: "fst (log_message e now w) \<le> 51"
  using length_format_msg[of "s_log_seq w + 1" now]
  by (cases "snprintf_fails e") (simp_all add: log_message_failed log_message_written)

lemma length_log_message: "length (snd (log_message e now w)) = PLAINTEXT_MAX"
  by (auto simp: log_message_def snprintf_def Let_def PLAINTEXT_MAX_def min_def)

lemma replies_seq [simp]:
  "rng_reply e (w\<lparr>s_log_seq := x\<rparr>) = rng_reply e w"
  "fresh_iv e (w\<lparr>s_log_seq := x\<rparr>) = fresh_iv e w"
  "encrypt_op e p n (w\<lparr>s_log_seq := x\<rparr>) = encrypt_op e p n w"
  "enc_reply e p n (w\<lparr>s_log_seq := x\<rparr>) = enc_reply e p n w"
  "se_ciphertext e p n (w\<lparr>s_log_seq := x\<rparr>) = se_ciphertext e p n w"
  by (simp_all add: rng_reply_def fresh_iv_def encrypt_op_def enc_reply_def se_ciphertext_def)

lemma append_unfold:
  "append_encrypted_record e now w =
     (if fst (log_message e now w) < 0
      then Some (Inr (esp_log (ESP_LOGE ''snprintf failed'') (w\<lparr>s_log_seq := s_log_seq w + 1\<rparr>)))
      else (case encoding e now w of
              None \<Rightarrow> None
            | Some (Inl f) \<Rightarrow> Some (Inl f)
            | Some (Inr (ok, record, w2)) \<Rightarrow>
                if \<not> ok then Some (Inr (esp_log (ESP_LOGE ''encrypt_record failed'') w2))
                else if fopen_fails e
                then Some (Inr (esp_log (ESP_LOGE ''failed to open log file for append'') w2))
                else Some (Inr (esp_log (ESP_LOGI ''encrypted: %s'')
                                 (fwrite e record (AES_IV_BYTES + PLAINTEXT_MAX) w2)))))"
  by (simp add: append_encrypted_record_def log_message_def encoding_def Let_def split: prod.splits)

lemma world_frame [simp]:
  "log_file (esp_log l w) = log_file w"
  "s_log_seq (esp_log l w) = s_log_seq w"
  "log_file (completed_world op st w) = log_file w"
  "s_log_seq (completed_world op st w) = s_log_seq w"
  "log_file (rejected_world op w) = log_file w"
  "s_log_seq (rejected_world op w) = s_log_seq w"
  "s_log_seq (fwrite e b n w) = s_log_seq w"
  by (simp_all add: esp_log_def completed_world_def rejected_world_def fwrite_def)

text \<open>The codec as the append calls it, in closed form.\<close>

lemma encoding_closed:
  assumes "0 \<le> fst (log_message e now w)"
  shows "encoding e now w =
     (let msg = snd (log_message e now w); n = nat (fst (log_message e now w));
          w0 = w\<lparr>s_log_seq := s_log_seq w + 1\<rparr>;
          buf = uninit e ''record'' (AES_IV_BYTES + PLAINTEXT_MAX);
          op = encrypt_op e msg n w;
          w1 = completed_world (Random AES_IV_BYTES) OPTIGA_LIB_SUCCESS w0
      in case outcome (rng_reply e w) of
           Rejected \<Rightarrow> Some (Inr (False, buf,
               esp_log (ESP_LOGE ''IV generation failed'') (rejected_world (Random AES_IV_BYTES) w0)))
         | NoSignal \<Rightarrow> None
         | Completed st \<Rightarrow>
             if st \<noteq> OPTIGA_LIB_SUCCESS
             then Some (Inr (False, buf,
                    esp_log (ESP_LOGE ''IV generation failed'') (completed_world (Random AES_IV_BYTES) st w0)))
             else
               (case outcome (enc_reply e msg n w) of
                  Rejected \<Rightarrow> Some (Inr (False, buf,
                      esp_log (ESP_LOGE ''optiga_crypt_symmetric_encrypt start failed: 0x%04X'')
                        (rejected_world op w1)))
                | NoSignal \<Rightarrow> None
                | Completed st2 \<Rightarrow>
                    if st2 \<noteq> OPTIGA_LIB_SUCCESS
                    then Some (Inr (False, buf,
                           esp_log (ESP_LOGE ''optiga_crypt_symmetric_encrypt failed'')
                             (completed_world op st2 w1)))
                    else if length (out_data (enc_reply e msg n w)) < PLAINTEXT_MAX
                    then Some (Inr (False, buf,
                           esp_log (ESP_LOGE ''unexpected ciphertext length: %lu'')
                             (completed_world op st2 w1)))
                    else Some (Inr (True, fresh_iv e w @ se_ciphertext e msg n w,
                                    completed_world op st2 w1))))"
proof -
  have n: "\<not> PLAINTEXT_MAX < nat (fst (log_message e now w))"
    using log_message_bound[of e now w] by (simp add: PLAINTEXT_MAX_def)
  have m: "\<not> length (snd (log_message e now w)) < nat (fst (log_message e now w))"
    using n by (simp add: length_log_message)
  show ?thesis
    unfolding encoding_def encrypt_record_closed Let_def
    using n m by (simp split: se_outcome.splits)
qed


lemma encoding_no_fault:
  assumes "0 \<le> fst (log_message e now w)"
  shows "encoding e now w \<noteq> Some (Inl f)"
  unfolding encoding_closed[OF assms] Let_def
  by (simp split: se_outcome.splits)

lemma encoding_result:
  assumes "0 \<le> fst (log_message e now w)" and "encoding e now w = Some (Inr (ok, rec', w2))"
  shows "log_file w2 = log_file w \<and> s_log_seq w2 = s_log_seq w + 1 \<and>
         (ok \<longrightarrow> length rec' = 80)"
  using assms(2) length_fresh_iv[of e w]
  unfolding encoding_closed[OF assms(1)] Let_def
  by (auto simp: se_ciphertext_def AES_IV_BYTES_def PLAINTEXT_MAX_def
           split: se_outcome.splits if_splits)

lemma stub_rng_any:
  "secure_element e = stub_element \<Longrightarrow> outcome (rng_reply e w) = Completed OPTIGA_LIB_SUCCESS"
  by (simp add: rng_reply_def stub_element_def reply_ok_def outcome_def
        OPTIGA_LIB_BUSY_def OPTIGA_LIB_SUCCESS_def)

lemma stub_enc_any:
  "secure_element e = stub_element \<Longrightarrow> outcome (enc_reply e p n w) = Completed OPTIGA_LIB_SUCCESS"
  by (simp add: enc_reply_def encrypt_op_def stub_element_def reply_ok_def outcome_def
        OPTIGA_LIB_BUSY_def OPTIGA_LIB_SUCCESS_def)

lemma stub_enc_length:
  "secure_element e = stub_element \<Longrightarrow> n \<le> PLAINTEXT_MAX \<Longrightarrow> n \<le> length p \<Longrightarrow>
   length (out_data (enc_reply e p n w)) = PLAINTEXT_MAX"
  by (simp add: enc_reply_def encrypt_op_def stub_element_def reply_ok_def padded_def)

lemma stub_iv_any:
  "secure_element e = stub_element \<Longrightarrow>
   fresh_iv e w = [0, 1, 2, 3, 4, 5, 6, 7, 8, 9, 10, 11, 12, 13, 14, 15]"
  by (simp add: fresh_iv_def rng_reply_def stub_element_def reply_ok_def write_out_def AES_IV_BYTES_def)

lemma stub_encoding:
  assumes se: "secure_element e = stub_element" and ok: "\<not> snprintf_fails e"
  shows "0 \<le> fst (log_message e now w)"
    and "encoding e now w =
      Some (Inr (True,
        fresh_iv e w @ se_ciphertext e (snd (log_message e now w)) (nat (fst (log_message e now w))) w,
        completed_world (encrypt_op e (snd (log_message e now w)) (nat (fst (log_message e now w))) w)
          OPTIGA_LIB_SUCCESS
          (completed_world (Random AES_IV_BYTES) OPTIGA_LIB_SUCCESS (w\<lparr>s_log_seq := s_log_seq w + 1\<rparr>))))"
proof -
  show nn: "0 \<le> fst (log_message e now w)" using ok by (simp add: log_message_written)
  have n: "nat (fst (log_message e now w)) \<le> PLAINTEXT_MAX"
    using log_message_bound[of e now w] by (simp add: PLAINTEXT_MAX_def)
  then have m: "nat (fst (log_message e now w)) \<le> length (snd (log_message e now w))"
    by (simp add: length_log_message)
  show "encoding e now w =
      Some (Inr (True,
        fresh_iv e w @ se_ciphertext e (snd (log_message e now w)) (nat (fst (log_message e now w))) w,
        completed_world (encrypt_op e (snd (log_message e now w)) (nat (fst (log_message e now w))) w)
          OPTIGA_LIB_SUCCESS
          (completed_world (Random AES_IV_BYTES) OPTIGA_LIB_SUCCESS (w\<lparr>s_log_seq := s_log_seq w + 1\<rparr>))))"
    unfolding encoding_closed[OF nn] Let_def
    by (simp add: stub_rng_any[OF se] stub_enc_any[OF se] stub_enc_length[OF se n m])
qed

lemma stub_env_facts:
  "secure_element env_stub = stub_element" "\<not> snprintf_fails env_stub"
  "\<not> fopen_fails env_stub" "storage_accepts env_stub = 80"
  by (simp_all add: env_stub_def)

lemma length_show_nat_1: "length (show_nat (Suc 0)) = Suc 0"
  by (subst show_nat.simps) simp

lemma length_show_nat_532: "length (show_nat 532) = 3"
  by (subst show_nat.simps, simp)+

lemma stub_message_length: "fst (log_message env_stub 532000 w_boot) = 25"
  by (simp add: log_message_written stub_env_facts format_msg_def show_int_def w_boot_def
        length_show_nat_1 length_show_nat_532 signed_divide_int_def)

text \<open>
  C8: at the only call site of \<open>encrypt_record\<close>, whenever \<open>snprintf\<close> succeeds the length
  it returns is at most 63 (the text is 21 fixed characters, at most 10 digits of the
  32-bit counter and at most 20 characters of the 64-bit uptime, so at most 51), the
  message buffer has 64 bytes, and the copy of that many bytes into the zero-padded 64-byte
  buffer is in bounds: neither the codec nor the append ever overruns a buffer.
\<close>

theorem message_copy_in_bounds:
  assumes "0 \<le> fst (log_message e now w)"
  shows "fst (log_message e now w) \<le> 63 \<and>
         length (snd (log_message e now w)) = 64 \<and>
         memcpy (replicate PLAINTEXT_MAX 0) 0 (snd (log_message e now w))
                (nat (fst (log_message e now w))) =
           Inr (padded (snd (log_message e now w)) (nat (fst (log_message e now w)))) \<and>
         encoding e now w \<noteq> Some (Inl BufferOverflow) \<and>
         append_encrypted_record e now w \<noteq> Some (Inl BufferOverflow)"
proof -
  have b: "fst (log_message e now w) \<le> 51" by (rule log_message_bound)
  have l: "length (snd (log_message e now w)) = 64"
    by (simp add: length_log_message PLAINTEXT_MAX_def)
  have m: "memcpy (replicate PLAINTEXT_MAX 0) 0 (snd (log_message e now w))
                (nat (fst (log_message e now w))) =
           Inr (padded (snd (log_message e now w)) (nat (fst (log_message e now w))))"
    using b l by (subst memcpy_pad) (simp add: PLAINTEXT_MAX_def)
  have f: "encoding e now w \<noteq> Some (Inl BufferOverflow)"
    by (rule encoding_no_fault[OF assms])
  have "append_encrypted_record e now w \<noteq> Some (Inl BufferOverflow)"
    using f by (auto simp: append_unfold split: option.splits sum.splits prod.splits if_splits)
  with b l m f show ?thesis by simp
qed

theorem message_copy_in_bounds_witness:
  "fst (log_message env_stub 532000 w_boot) = 25 \<and>
   0 \<le> fst (log_message env_stub 532000 w_boot) \<and>
   fst (log_message env_stub 532000 w_boot) \<le> 63 \<and>
   length (snd (log_message env_stub 532000 w_boot)) = 64 \<and>
   memcpy (replicate PLAINTEXT_MAX 0) 0 (snd (log_message env_stub 532000 w_boot))
          (nat (fst (log_message env_stub 532000 w_boot))) =
     Inr (padded (snd (log_message env_stub 532000 w_boot)) (nat (fst (log_message env_stub 532000 w_boot)))) \<and>
   encoding env_stub 532000 w_boot \<noteq> Some (Inl BufferOverflow) \<and>
   append_encrypted_record env_stub 532000 w_boot \<noteq> Some (Inl BufferOverflow)"
proof -
  have nn: "0 \<le> fst (log_message env_stub 532000 w_boot)" by (simp add: stub_message_length)
  from message_copy_in_bounds[OF nn] nn stub_message_length show ?thesis by simp
qed

text \<open>
  C9: every invocation of \<open>append_encrypted_record\<close> that returns leaves \<open>s_log_seq\<close>
  incremented by exactly one (in 32-bit arithmetic), whether or not a record was stored:
  also when message construction, encryption or the file open fails. It never overruns a
  buffer, and it fails to return only when the secure element never signals the completion
  of the random fill or of the encryption. So stored sequence numbers may have gaps.
\<close>

theorem sequence_counter_increments:
  "case append_encrypted_record e now w of
     None \<Rightarrow>
       0 \<le> fst (log_message e now w) \<and>
       (outcome (rng_reply e w) = NoSignal \<or>
        outcome (rng_reply e w) = Completed OPTIGA_LIB_SUCCESS \<and>
        outcome (enc_reply e (snd (log_message e now w)) (nat (fst (log_message e now w))) w) = NoSignal)
   | Some (Inl f) \<Rightarrow> False
   | Some (Inr w') \<Rightarrow> s_log_seq w' = s_log_seq w + 1"
proof (cases "fst (log_message e now w) < 0")
  case True
  then show ?thesis by (simp add: append_unfold)
next
  case False
  then have nn: "0 \<le> fst (log_message e now w)" by simp
  show ?thesis
    unfolding append_unfold encoding_closed[OF nn] Let_def
    using nn by (simp split: se_outcome.splits)
qed

theorem sequence_counter_increments_witness:
  "(case append_encrypted_record (env_stub\<lparr>snprintf_fails := True\<rparr>) 532000 w_boot of
      None \<Rightarrow> False
    | Some (Inl f) \<Rightarrow> False
    | Some (Inr w') \<Rightarrow> s_log_seq w' = 1)"
proof -
  have "fst (log_message (env_stub\<lparr>snprintf_fails := True\<rparr>) 532000 w_boot) = - 1"
    by (rule log_message_failed) simp
  with sequence_counter_increments[of "env_stub\<lparr>snprintf_fails := True\<rparr>" 532000 w_boot]
  show ?thesis
    by (auto simp: w_boot_def split: option.splits sum.splits)
qed

text \<open>
  C6: if the encoding fails at any step (message construction, IV generation, encrypt
  submission, encrypt completion, ciphertext-length check), \<open>append_encrypted_record\<close>
  returns and the log file is what it was: no byte has been written.
\<close>

theorem failed_encoding_writes_nothing:
  assumes "encoding_failure e now w"
  shows "\<exists>w'. append_encrypted_record e now w = Some (Inr w') \<and> log_file w' = log_file w"
proof (cases "fst (log_message e now w) < 0")
  case True
  then show ?thesis by (simp add: append_unfold)
next
  case False
  then have nn: "0 \<le> fst (log_message e now w)" by simp
  show ?thesis
    using assms nn
    unfolding append_unfold encoding_closed[OF nn] encoding_failure_def Let_def
    by (auto split: se_outcome.splits)
qed

theorem failed_encoding_writes_nothing_witness:
  "encoding_failure (env_stub\<lparr>snprintf_fails := True\<rparr>) 532000 w_boot \<and>
   (\<exists>w'. append_encrypted_record (env_stub\<lparr>snprintf_fails := True\<rparr>) 532000 w_boot = Some (Inr w') \<and>
         log_file w' = log_file w_boot)"
proof -
  have "fst (log_message (env_stub\<lparr>snprintf_fails := True\<rparr>) 532000 w_boot) = - 1"
    by (rule log_message_failed) simp
  then have f: "encoding_failure (env_stub\<lparr>snprintf_fails := True\<rparr>) 532000 w_boot"
    by (simp add: encoding_failure_def Let_def)
  from failed_encoding_writes_nothing[OF f] f show ?thesis by simp
qed

text \<open>
  C5: every append either writes exactly the full 80-byte record or reports the failure
  (failure to open, or a short write) as an error. The code departs from it on a short
  write: the result of \<open>fwrite\<close> is discarded, where the failure of \<open>fopen\<close> just before
  is checked and logged. With an encoding that succeeds and a storage that takes only 10 of
  the 80 bytes, the append returns with 10 bytes of the record added to the file, and the
  only line it logs is the success line.
\<close>

theorem short_write_unreported:
  "map_option (map_sum id log_file)
     (append_encrypted_record (env_stub\<lparr>storage_accepts := 10\<rparr>) 532000 w_boot) =
     Some (Inr (Some [0, 1, 2, 3, 4, 5, 6, 7, 8, 9])) \<and>
   map_option (map_sum id console)
     (append_encrypted_record (env_stub\<lparr>storage_accepts := 10\<rparr>) 532000 w_boot) =
     Some (Inr [ESP_LOGI ''encrypted: %s''])"
proof -
  let ?e = "env_stub\<lparr>storage_accepts := 10\<rparr>"
  have se: "secure_element ?e = stub_element" and ok: "\<not> snprintf_fails ?e"
    and fo: "\<not> fopen_fails ?e" and sa: "storage_accepts ?e = 10"
    by (simp_all add: env_stub_def)
  note enc = stub_encoding[OF se ok, of 532000 w_boot]
  show ?thesis
    using enc(1) fo
    by (simp add: append_unfold enc(2) fwrite_def sa stub_iv_any[OF se] esp_log_def
          completed_world_def AES_IV_BYTES_def PLAINTEXT_MAX_def)
       (simp add: w_boot_def)
qed

end
